theory Spec2Isabelle
  imports Main "HOL-Library.Word"
begin

unbundle bit_operations_syntax

section \<open>Bytes and the library calls used by mimes.go\<close>

type_synonym byte = "8 word"

text \<open>
  Go's \<^verbatim>\<open>[]byte("...")\<close> of an ASCII literal: one byte per character. The two
  non-ASCII literals of the source (the AAC signatures) are written out byte by byte below,
  as the UTF-8 encoding the source file holds.
\<close>

definition bytes_of :: "string \<Rightarrow> byte list" where
  "bytes_of s = map of_char s"

text \<open>
  A run-time panic of the Go program. Reading \<^verbatim>\<open>m.pat[i]\<close> beyond the pattern and
  slicing beyond the data are the only places of the file where one could arise.
\<close>

datatype panic = IndexOutOfRange | SliceBoundsOutOfRange

text \<open>\<^verbatim>\<open>bytes.HasPrefix(s, prefix)\<close>: \<^verbatim>\<open>len(s) >= len(prefix) && Equal(s[:len(prefix)], prefix)\<close>.\<close>

definition HasPrefix :: "byte list \<Rightarrow> byte list \<Rightarrow> bool" where
  "HasPrefix s p = (length p \<le> length s \<and> take (length p) s = p)"

text \<open>\<^verbatim>\<open>bytes.Contains(b, sub)\<close>: \<^verbatim>\<open>sub\<close> starts at some offset of \<^verbatim>\<open>b\<close>.\<close>

fun Contains :: "byte list \<Rightarrow> byte list \<Rightarrow> bool" where
  "Contains [] sub = (sub = [])"
| "Contains (x # xs) sub = (HasPrefix (x # xs) sub \<or> Contains xs sub)"

text \<open>
  The slice expression \<^verbatim>\<open>data[lo:hi]\<close>, with the bound check against the length (a
  slice whose capacity is its length, as the 512-byte prefix is when it is full).
\<close>

definition slice :: "byte list \<Rightarrow> nat \<Rightarrow> nat \<Rightarrow> panic + byte list" where
  "slice data lo hi =
     (if lo \<le> hi \<and> hi \<le> length data then Inr (take (hi - lo) (drop lo data))
      else Inl SliceBoundsOutOfRange)"

text \<open>
  \<^verbatim>\<open>binary.BigEndian.Uint32(b)\<close>:
  \<^verbatim>\<open>uint32(b[3]) | uint32(b[2])<<8 | uint32(b[1])<<16 | uint32(b[0])<<24\<close>.
\<close>

definition BigEndian_Uint32 :: "byte list \<Rightarrow> 32 word" where
  "BigEndian_Uint32 b =
     ucast (b ! 3) OR push_bit 8 (ucast (b ! 2)) OR push_bit 16 (ucast (b ! 1))
       OR push_bit 24 (ucast (b ! 0))"

section \<open>The matchers\<close>

text \<open>
  The three struct types that implement the interface \<^verbatim>\<open>Matcher\<close>, with their fields in
  the order of the source: \<^verbatim>\<open>exactSig{ext, mime, sig}\<close>,
  \<^verbatim>\<open>maskedSig{ext, mime, mask, pat}\<close>, and the two field-less structural matchers.
\<close>

datatype Matcher =
    exactSig string string "byte list"
  | maskedSig string string "byte list" "byte list"
  | webmOrMKVSig
  | mp4Sig

definition exactSig_Match :: "string \<Rightarrow> string \<Rightarrow> byte list \<Rightarrow> byte list \<Rightarrow> string \<times> string" where
  "exactSig_Match ext mime sig data =
     (if HasPrefix data sig then (mime, ext) else ('''', ''''))"

text \<open>
  The loop \<^verbatim>\<open>for i, mask := range m.mask\<close> of \<^verbatim>\<open>maskedSig.Match\<close>. The three
  lists are the data, the mask and the pattern from index \<open>i\<close> on, so their heads are
  \<^verbatim>\<open>data[i]\<close>, \<^verbatim>\<open>mask\<close> (here \<open>mk\<close>) and \<^verbatim>\<open>m.pat[i]\<close>. The data byte is
  read first, then the pattern byte; either read panics when the index is out of range.
\<close>

fun maskedSig_range :: "byte list \<Rightarrow> byte list \<Rightarrow> byte list \<Rightarrow> panic + bool" where
  "maskedSig_range data [] pat = Inr True"
| "maskedSig_range [] (mk # masks) pat = Inl IndexOutOfRange"
| "maskedSig_range (d # data) (mk # masks) [] = Inl IndexOutOfRange"
| "maskedSig_range (d # data) (mk # masks) (p # pat) =
     (if d AND mk \<noteq> p then Inr False else maskedSig_range data masks pat)"

definition maskedSig_Match ::
  "string \<Rightarrow> string \<Rightarrow> byte list \<Rightarrow> byte list \<Rightarrow> byte list \<Rightarrow> panic + (string \<times> string)" where
  "maskedSig_Match ext mime msk pat data =
     (if length data < length msk then Inr ('''', '''')
      else (case maskedSig_range data msk pat of
              Inl p \<Rightarrow> Inl p
            | Inr False \<Rightarrow> Inr ('''', '''')
            | Inr True \<Rightarrow> Inr (mime, ext)))"

definition EBML :: "byte list" where
  "EBML = [0x1A, 0x45, 0xDF, 0xA3]"

text \<open>\<^verbatim>\<open>data[4:]\<close> is in range in the second and third case: the first case has returned
  for every \<^verbatim>\<open>data\<close> shorter than 8 bytes.\<close>

definition webmOrMKVSig_Match :: "byte list \<Rightarrow> string \<times> string" where
  "webmOrMKVSig_Match data =
     (if length data < 8 \<or> \<not> HasPrefix data EBML then ('''', '''')
      else if Contains (drop 4 data) (bytes_of ''webm'') then (''video/webm'', ''webm'')
      else if Contains (drop 4 data) (bytes_of ''matroska'') then (''video/x-matroska'', ''mkv'')
      else ('''', ''''))"

text \<open>The loop \<^verbatim>\<open>for st := 8; st < boxSize; st += 4\<close> of \<^verbatim>\<open>mp4Sig.Match\<close>, from \<open>st\<close> on.\<close>

function mp4Sig_range :: "byte list \<Rightarrow> nat \<Rightarrow> nat \<Rightarrow> panic + (string \<times> string)" where
  "mp4Sig_range data boxSize st =
     (if st < boxSize then
        (if st = 12 then mp4Sig_range data boxSize (st + 4)
         else (case slice data st (st + 3) of
                 Inl p \<Rightarrow> Inl p
               | Inr chunk \<Rightarrow>
                   if chunk = bytes_of ''mp4'' then Inr (''video/mp4'', ''mp4'')
                   else mp4Sig_range data boxSize (st + 4)))
      else Inr ('''', ''''))"
  by pat_completeness auto
termination
  by (relation "measure (\<lambda>(data, boxSize, st). boxSize - st)") auto

text \<open>
  \<^verbatim>\<open>int(binary.BigEndian.Uint32(data[:4]))\<close> is the unsigned value of the four bytes (an
  \<^verbatim>\<open>int\<close> of 64 bits). \<^verbatim>\<open>data[:4]\<close> and \<^verbatim>\<open>data[4:8]\<close> are in range after the check
  on the length.
\<close>

definition mp4Sig_Match :: "byte list \<Rightarrow> panic + (string \<times> string)" where
  "mp4Sig_Match data =
     (if length data < 12 then Inr ('''', '''')
      else
        (let boxSize = unat (BigEndian_Uint32 (take 4 data));
             nope = (boxSize mod 4 \<noteq> 0 \<or> length data < boxSize
                      \<or> \<not> (take 4 (drop 4 data) = bytes_of ''ftyp''))
         in if nope then Inr ('''', '''') else mp4Sig_range data boxSize 8))"

text \<open>The method \<^verbatim>\<open>Match\<close> of the interface, by the dynamic type of the matcher.\<close>

fun Match :: "Matcher \<Rightarrow> byte list \<Rightarrow> panic + (string \<times> string)" where
  "Match (exactSig ext mime sig) data = Inr (exactSig_Match ext mime sig data)"
| "Match (maskedSig ext mime msk pat) data = maskedSig_Match ext mime msk pat data"
| "Match webmOrMKVSig data = Inr (webmOrMKVSig_Match data)"
| "Match mp4Sig data = mp4Sig_Match data"

text \<open>The built-in registry, \<^verbatim>\<open>var matchers\<close>, in the order of the source.\<close>

definition matchers :: "Matcher list" where
  "matchers =
    [ exactSig ''jpg'' ''image/jpeg'' [0xFF, 0xD8, 0xFF],
      exactSig ''png'' ''image/png'' [0x89, 0x50, 0x4E, 0x47, 0x0D, 0x0A, 0x1A, 0x0A],
      exactSig ''gif'' ''image/gif'' (bytes_of ''GIF87a''),
      exactSig ''gif'' ''image/gif'' (bytes_of ''GIF89a''),
      maskedSig ''webp'' ''image/webp''
        [0xFF, 0xFF, 0xFF, 0xFF, 0x00, 0x00, 0x00, 0x00, 0xFF, 0xFF, 0xFF, 0xFF, 0xFF, 0xFF]
        (bytes_of ''RIFF'' @ [0x00, 0x00, 0x00, 0x00] @ bytes_of ''WEBPVP''),
      maskedSig ''ogg'' ''application/ogg''
        (bytes_of ''OggS'' @ [0x00])
        [0x4F, 0x67, 0x67, 0x53, 0x00],
      webmOrMKVSig,
      exactSig ''pdf'' ''application/pdf'' (bytes_of ''%PDF-''),
      maskedSig ''mp3'' ''audio/mpeg'' [0xFF, 0xFF, 0xFF] (bytes_of ''ID3''),
      mp4Sig,
      exactSig ''aac'' ''audio/aac'' [0xC3, 0xBF, 0xC3, 0xB1],
      exactSig ''aac'' ''audio/aac'' [0xC3, 0xBF, 0xC3, 0xB9],
      exactSig ''bmp'' ''image/bmp'' (bytes_of ''BM''),
      maskedSig ''wav'' ''audio/wave''
        [0xFF, 0xFF, 0xFF, 0xFF, 0x00, 0x00, 0x00, 0x00, 0xFF, 0xFF, 0xFF, 0xFF]
        (bytes_of ''RIFF'' @ [0x00, 0x00, 0x00, 0x00] @ bytes_of ''WAVE''),
      maskedSig ''avi'' ''video/avi''
        [0xFF, 0xFF, 0xFF, 0xFF, 0x00, 0x00, 0x00, 0x00, 0xFF, 0xFF, 0xFF, 0xFF]
        (bytes_of ''RIFF'' @ [0x00, 0x00, 0x00, 0x00] @ bytes_of ''AVI ''),
      exactSig ''psd'' ''image/photoshop'' (bytes_of ''8BPS''),
      exactSig ''flac'' ''audio/x-flac'' (bytes_of ''fLaC''),
      exactSig ''tiff'' ''image/tiff'' (bytes_of ''II*'' @ [0x00]),
      exactSig ''tiff'' ''image/tiff'' (bytes_of ''MM'' @ [0x00] @ bytes_of ''*''),
      exactSig ''mov'' ''video/quicktime'' ([0x00, 0x00, 0x00, 0x14] @ bytes_of ''ftyp''),
      exactSig ''wmv'' ''video/x-ms-wmv''
        [0x30, 0x26, 0xB2, 0x75, 0x8E, 0x66, 0xCF, 0x11, 0xA6, 0xD9],
      exactSig ''flv'' ''video/x-flv'' (bytes_of ''FLV'' @ [0x01]),
      exactSig ''ico'' ''image/x-icon'' [0x00, 0x00, 0x01, 0x00],
      maskedSig ''midi'' ''audio/midi''
        [0xFF, 0xFF, 0xFF, 0xFF, 0xFF, 0xFF, 0xFF, 0xFF]
        (bytes_of ''MThd'' @ [0x00, 0x00, 0x00, 0x06]) ]"

text \<open>\<^verbatim>\<open>RegisterMatcher\<close> appends to the registry, which the model passes explicitly.\<close>

definition RegisterMatcher :: "Matcher list \<Rightarrow> Matcher \<Rightarrow> Matcher list" where
  "RegisterMatcher ms m = ms @ [m]"

section \<open>Errors\<close>

text \<open>
  A value of Go's interface \<^verbatim>\<open>error\<close>: the type \<^verbatim>\<open>UnsupportedMIMEError\<close> of this file
  (a string, the label), or a value of any other error type, such as \<^verbatim>\<open>io.EOF\<close> from a
  reader, which is kept by its message.
\<close>

datatype error = UnsupportedMIMEError string | OtherError string

text \<open>The method \<^verbatim>\<open>Error\<close>: \<^verbatim>\<open>fmt.Sprintf("unsupported MIME type: %s", string(u))\<close>.\<close>

fun Error :: "error \<Rightarrow> string" where
  "Error (UnsupportedMIMEError u) = ''unsupported MIME type: '' @ u"
| "Error (OtherError msg) = msg"

section \<open>Detection\<close>

text \<open>
  The method \<^verbatim>\<open>Read\<close> of the \<^verbatim>\<open>io.ReadSeeker\<close> handed to detection. The reader is an
  object with a state of its own, \<open>'s\<close>; a call takes the state and the buffer \<^verbatim>\<open>p\<close> and
  gives the bytes it stored in \<^verbatim>\<open>p\<close> from index 0 on, the count \<^verbatim>\<open>n\<close>, the error (or
  none, \<^verbatim>\<open>nil\<close>) and the state after the call.
\<close>

type_synonym 's Read = "'s \<Rightarrow> byte list \<Rightarrow> (byte list \<times> nat \<times> error option) \<times> 's"

text \<open>The buffer \<^verbatim>\<open>p\<close> after a call that stored \<open>written\<close> in it: its length is unchanged.\<close>

definition store :: "byte list \<Rightarrow> byte list \<Rightarrow> byte list" where
  "store written p = take (length p) written @ drop (length written) p"

text \<open>\<^verbatim>\<open>make([]byte, n)\<close>: a fresh buffer of \<open>n\<close> zero bytes.\<close>

definition make_bytes :: "nat \<Rightarrow> byte list" where
  "make_bytes n = replicate n 0"

text \<open>
  The loop \<^verbatim>\<open>for _, m := range matchers\<close> of \<^verbatim>\<open>detectMimeType\<close>. The pair is the
  current value of the named results \<^verbatim>\<open>mime, ext\<close>, which every iteration overwrites.
\<close>

fun range_matchers ::
  "Matcher list \<Rightarrow> byte list \<Rightarrow> string \<times> string \<Rightarrow> panic + (string \<times> string)" where
  "range_matchers [] buf res = Inr res"
| "range_matchers (m # ms) buf res =
     (case Match m buf of
        Inl p \<Rightarrow> Inl p
      | Inr (mime, ext) \<Rightarrow>
          if mime \<noteq> '''' then Inr (mime, ext) else range_matchers ms buf (mime, ext))"

text \<open>\<^verbatim>\<open>accepted[mime]\<close> on a non-nil map: \<^verbatim>\<open>false\<close> for a key that is not there.\<close>

definition index_accepted :: "(string \<rightharpoonup> bool) \<Rightarrow> string \<Rightarrow> bool" where
  "index_accepted accepted mime = (case accepted mime of None \<Rightarrow> False | Some b \<Rightarrow> b)"

text \<open>
  The first half of \<^verbatim>\<open>detectMimeType\<close> (the \<^verbatim>\<open>if buf == nil\<close> statement): the prefix to
  match and the reader's state, or the reader's error. \<open>None\<close> is the nil buffer.
\<close>

definition detectMimeType_buf ::
  "'s Read \<Rightarrow> byte list option \<Rightarrow> 's \<Rightarrow> (error + byte list) \<times> 's" where
  "detectMimeType_buf Read buf rs =
     (case buf of
        None \<Rightarrow>
          (let buf0 = make_bytes 512;
               ((written, read, err), rs') = Read rs buf0;
               buf1 = store written buf0
           in case err of
                Some e \<Rightarrow> (Inl e, rs')
              | None \<Rightarrow> (Inr (if read < 512 then take read buf1 else buf1), rs'))
      | Some b \<Rightarrow> (Inr (if length b > 512 then take 512 b else b), rs))"

text \<open>
  The second half: the loop over the registry and the final \<^verbatim>\<open>switch\<close>, giving the three
  results \<^verbatim>\<open>mime, ext, err\<close>. \<open>None\<close> is the nil map.
\<close>

definition detectMimeType_match ::
  "Matcher list \<Rightarrow> byte list \<Rightarrow> (string \<rightharpoonup> bool) option
   \<Rightarrow> panic + (string \<times> string \<times> error option)" where
  "detectMimeType_match ms buf accepted =
     (case range_matchers ms buf ('''', '''') of
        Inl p \<Rightarrow> Inl p
      | Inr (mime, ext) \<Rightarrow>
          Inr (mime, ext,
               (if mime = '''' then Some (UnsupportedMIMEError ''application/octet-stream'')
                else if accepted \<noteq> None \<and> \<not> index_accepted (the accepted) mime
                then Some (UnsupportedMIMEError mime)
                else None)))"

text \<open>
  \<^verbatim>\<open>detectMimeType(buf, rs, accepted)\<close>, with the registry and the reader's method as
  explicit arguments. The result is the three values returned and the reader's state.
\<close>

definition detectMimeType ::
  "Matcher list \<Rightarrow> 's Read \<Rightarrow> byte list option \<Rightarrow> 's \<Rightarrow> (string \<rightharpoonup> bool) option
   \<Rightarrow> panic + ((string \<times> string \<times> error option) \<times> 's)" where
  "detectMimeType ms Read buf rs accepted =
     (case detectMimeType_buf Read buf rs of
        (Inl e, rs') \<Rightarrow> Inr (('''', '''', Some e), rs')
      | (Inr prefix, rs') \<Rightarrow>
          (case detectMimeType_match ms prefix accepted of
             Inl p \<Rightarrow> Inl p
           | Inr res \<Rightarrow> Inr (res, rs')))"

section \<open>Dispatch\<close>

text \<open>
  \<^verbatim>\<open>Source\<close>, \<^verbatim>\<open>Options\<close> and \<^verbatim>\<open>Thumbnail\<close> are declared in other files of the
  package. Dispatch reads one field of the source, \<^verbatim>\<open>Mime\<close>; the other fields are the
  extension of the record. The options are a type parameter \<open>'o\<close>, the thumbnail a type
  parameter \<open>'t\<close> whose zero value \<^verbatim>\<open>Thumbnail{}\<close> is an argument of dispatch. A processor
  works on files and images, so it takes and returns a state of the world, \<open>'w\<close>.
\<close>

record Source =
  Mime :: string

type_synonym ('a, 'o, 't, 'w) Processor =
  "'a Source_scheme \<Rightarrow> 'o \<Rightarrow> 'w \<Rightarrow> ('a Source_scheme \<times> 't \<times> error option) \<times> 'w"

text \<open>
  The three category handlers \<^verbatim>\<open>processImage\<close>, \<^verbatim>\<open>processAudio\<close> and
  \<^verbatim>\<open>processVideo\<close> are functions of the package outside this file: dispatch takes them
  as arguments.
\<close>

record ('a, 'o, 't, 'w) Handlers =
  processImage :: "('a, 'o, 't, 'w) Processor"
  processAudio :: "('a, 'o, 't, 'w) Processor"
  processVideo :: "('a, 'o, 't, 'w) Processor"

text \<open>The labels of the three cases of the \<^verbatim>\<open>switch src.Mime\<close>, in the order of the source.\<close>

definition image_case :: "string list" where
  "image_case =
    [''image/jpeg'', ''image/png'', ''image/gif'', ''image/webp'', ''application/pdf'',
     ''image/bmp'', ''image/photoshop'', ''image/tiff'', ''image/x-icon'']"

definition audio_case :: "string list" where
  "audio_case =
    [''audio/mpeg'', ''audio/aac'', ''audio/wave'', ''audio/x-flac'', ''audio/midi'']"

definition video_case :: "string list" where
  "video_case =
    [''application/ogg'', ''video/webm'', ''video/x-matroska'', ''video/mp4'', ''video/avi'',
     ''video/quicktime'', ''video/x-ms-wmv'', ''video/x-flv'']"

text \<open>
  The map \<^verbatim>\<open>mimeProcessors\<close>: a key may be absent, or hold a nil function (\<open>Some None\<close>);
  indexing gives nil in both cases.
\<close>

type_synonym ('a, 'o, 't, 'w) Processors = "string \<rightharpoonup> ('a, 'o, 't, 'w) Processor option"

definition index_mimeProcessors ::
  "('a, 'o, 't, 'w) Processors \<Rightarrow> string \<Rightarrow> ('a, 'o, 't, 'w) Processor option" where
  "index_mimeProcessors mimeProcessors mime =
     (case mimeProcessors mime of None \<Rightarrow> None | Some fn \<Rightarrow> fn)"

definition RegisterProcessor ::
  "('a, 'o, 't, 'w) Processors \<Rightarrow> string \<Rightarrow> ('a, 'o, 't, 'w) Processor option
   \<Rightarrow> ('a, 'o, 't, 'w) Processors" where
  "RegisterProcessor mimeProcessors mime fn = mimeProcessors(mime \<mapsto> fn)"

definition processFile ::
  "('a, 'o, 't, 'w) Processors \<Rightarrow> ('a, 'o, 't, 'w) Handlers \<Rightarrow> 't
   \<Rightarrow> ('a, 'o, 't, 'w) Processor" where
  "processFile mimeProcessors handlers zero src opts w =
     (case index_mimeProcessors mimeProcessors (Mime src) of
        Some override \<Rightarrow> override src opts w
      | None \<Rightarrow>
          if Mime src \<in> set image_case then processImage handlers src opts w
          else if Mime src \<in> set audio_case then processAudio handlers src opts w
          else if Mime src \<in> set video_case then processVideo handlers src opts w
          else ((src, zero, Some (UnsupportedMIMEError (Mime src))), w))"

section \<open>Notions of the specification\<close>

text \<open>The prefix begins with the given bytes.\<close>

definition begins_with :: "byte list \<Rightarrow> byte list \<Rightarrow> bool" where
  "begins_with sig data = (\<exists>rest. data = sig @ rest)"

text \<open>The given bytes occur somewhere in the data, as a contiguous run.\<close>

definition occurs_in :: "byte list \<Rightarrow> byte list \<Rightarrow> bool" where
  "occurs_in sub data = (\<exists>before after. data = before @ sub @ after)"

text \<open>The box size of an MP4 prefix: its first four bytes, read as a big-endian number.\<close>

definition box_size :: "byte list \<Rightarrow> nat" where
  "box_size data =
     unat (data ! 0) * 2 ^ 24 + unat (data ! 1) * 2 ^ 16 + unat (data ! 2) * 2 ^ 8
       + unat (data ! 3)"

text \<open>
  The offsets the MP4 matcher visits: the multiples of 4 from 8 up to the box size
  (exclusive), without offset 12.
\<close>

definition mp4_offsets :: "nat \<Rightarrow> nat list" where
  "mp4_offsets boxSize = filter (\<lambda>st. 4 dvd st \<and> st \<noteq> 12) [8 ..< boxSize]"



text \<open>The Accept Set excludes a label: the map is not nil and does not hold true for it.\<close>

definition excluded :: "(string \<rightharpoonup> bool) option \<Rightarrow> string \<Rightarrow> bool" where
  "excluded accepted mime = (case accepted of None \<Rightarrow> False | Some a \<Rightarrow> a mime \<noteq> Some True)"

section \<open>Sample readers and processors\<close>

text \<open>
  A reader over bytes held in memory, as \<^verbatim>\<open>bytes.Reader\<close> is: its state is the unread
  part; at the end it stores nothing and returns \<^verbatim>\<open>io.EOF\<close>.
\<close>

definition bytesReader_Read :: "byte list Read" where
  "bytesReader_Read rs p =
     (if rs = [] then (([], 0, Some (OtherError ''EOF'')), rs)
      else (let n = min (length p) (length rs) in ((take n rs, n, None), drop n rs)))"

text \<open>
  A reader that returns \<^verbatim>\<open>io.EOF\<close> together with the last bytes of its input, which the
  contract of \<^verbatim>\<open>io.Reader\<close> allows.
\<close>

definition eagerEOF_Read :: "byte list Read" where
  "eagerEOF_Read rs p =
     (let n = min (length p) (length rs)
      in ((take n rs, n, if length rs \<le> length p then Some (OtherError ''EOF'') else None),
          drop n rs))"

text \<open>The reader over bytes in memory, counting the calls of \<^verbatim>\<open>Read\<close> in its state.\<close>

definition countingReader_Read :: "(byte list \<times> nat) Read" where
  "countingReader_Read rs p =
     (case bytesReader_Read (fst rs) p of (r, unread) \<Rightarrow> (r, (unread, Suc (snd rs))))"

text \<open>
  A processor that returns the source, a thumbnail \<open>t\<close> and no error, and leaves its name in
  the world, which is the list of the processors that ran.
\<close>

definition named_processor :: "string \<Rightarrow> nat \<Rightarrow> (unit, unit, nat, string list) Processor" where
  "named_processor name t src opts w = ((src, t, None), w @ [name])"

text \<open>A processor that fails with an error of its own.\<close>

definition failing_processor :: "(unit, unit, nat, string list) Processor" where
  "failing_processor src opts w = ((src, 0, Some (OtherError ''decoder failed'')), w)"

definition named_handlers :: "(unit, unit, nat, string list) Handlers" where
  "named_handlers =
     \<lparr> processImage = named_processor ''processImage'' 1,
       processAudio = named_processor ''processAudio'' 2,
       processVideo = named_processor ''processVideo'' 3 \<rparr>"

text \<open>The start of an MP4 file: an \<^verbatim>\<open>ftyp\<close> box of 24 bytes, major brand "isom", a minor
  version, and the compatible brands "mp42" and "isom".\<close>

definition mp42 :: "byte list" where
  "mp42 = [0x00, 0x00, 0x00, 0x18] @ bytes_of ''ftypisom'' @ [0x00, 0x00, 0x02, 0x00]
            @ bytes_of ''mp42isom''"

text \<open>A prefix that is both an MP4 \<^verbatim>\<open>ftyp\<close> box of 20 bytes and a QuickTime signature.\<close>

definition mp4_mov :: "byte list" where
  "mp4_mov = [0x00, 0x00, 0x00, 0x14] @ bytes_of ''ftypmp42'' @ [0x00, 0x00, 0x00, 0x00]
      @ bytes_of ''mp41''"

text \<open>The start of a JPEG file, the JPEG signature alone, and two JPEG files of more than
  512 bytes that agree on their first 512 bytes.\<close>

definition jpeg :: "byte list" where
  "jpeg = [0xFF, 0xD8, 0xFF, 0xE0, 0x00, 0x10] @ bytes_of ''JFIF''"

definition jpeg_sig :: "byte list" where
  "jpeg_sig = [0xFF, 0xD8, 0xFF]"

definition long_jpeg :: "byte list" where
  "long_jpeg = jpeg @ replicate 502 0x20 @ bytes_of ''tail one''"

definition long_jpeg' :: "byte list" where
  "long_jpeg' = jpeg @ replicate 502 0x20 @ bytes_of ''another tail''"

section \<open>Library calls and loops\<close>

lemmas Match_defs = exactSig_Match_def maskedSig_Match_def webmOrMKVSig_Match_def
  mp4Sig_Match_def HasPrefix_def bytes_of_def EBML_def

lemmas detect_defs = detectMimeType_def detectMimeType_buf_def detectMimeType_match_def
  make_bytes_def store_def

lemma HasPrefix_iff: "HasPrefix s p \<longleftrightarrow> begins_with p s"
  unfolding HasPrefix_def begins_with_def
  by (metis append_eq_conv_conj length_append le_add1)

lemma Contains_iff: "Contains b sub \<longleftrightarrow> occurs_in sub b"
proof (induction b)
  case Nil
  then show ?case by (auto simp: occurs_in_def)
next
  case (Cons x xs)
  show ?case
  proof
    assume "Contains (x # xs) sub"
    then consider "HasPrefix (x # xs) sub" | "Contains xs sub" by auto
    then show "occurs_in sub (x # xs)"
    proof cases
      case 1
      then obtain ss where "x # xs = sub @ ss" by (auto simp: HasPrefix_iff begins_with_def)
      then have "x # xs = [] @ sub @ ss" by simp
      then show ?thesis unfolding occurs_in_def by blast
    next
      case 2
      then obtain ps ss where "xs = ps @ sub @ ss" using Cons.IH by (auto simp: occurs_in_def)
      then have "x # xs = (x # ps) @ sub @ ss" by simp
      then show ?thesis unfolding occurs_in_def by blast
    qed
  next
    assume "occurs_in sub (x # xs)"
    then obtain ps ss where eq: "x # xs = ps @ sub @ ss" by (auto simp: occurs_in_def)
    show "Contains (x # xs) sub"
    proof (cases ps)
      case Nil
      then have "HasPrefix (x # xs) sub" using eq by (auto simp: HasPrefix_iff begins_with_def)
      then show ?thesis by simp
    next
      case (Cons y ys)
      then have "xs = ys @ sub @ ss" using eq by simp
      then have "Contains xs sub" using Cons.IH unfolding occurs_in_def by blast
      then show ?thesis by simp
    qed
  qed
qed

lemma maskedSig_range_update:
  "i < length msk \<Longrightarrow> msk ! i = 0 \<Longrightarrow>
   maskedSig_range (data[i := v]) msk pat = maskedSig_range data msk pat"
proof (induction data msk pat arbitrary: i rule: maskedSig_range.induct)
  case (4 d data mk masks p pat)
  then show ?case by (cases i) auto
qed (auto split: nat.splits)



section \<open>The WebM/MKV matcher\<close>

text \<open>
  C7: The WebM/MKV matcher returns no match for every prefix shorter than 8 bytes or not
  beginning with the EBML header 1A 45 DF A3, whatever else the prefix holds. When the
  header is present it returns "video/webm" if "webm" occurs in the prefix from offset 4 on
  (\<^verbatim>\<open>data[4:]\<close>), else "video/x-matroska" if "matroska" occurs there, else no match; so
  "webm" has priority when both occur. (A prefix that holds the header and is shorter than
  8 bytes is too short for either word to occur from offset 4 on, so the two parts agree.)
\<close>

theorem webmOrMKVSig_requires_header:
  "(length data < 8 \<or> \<not> begins_with EBML data
      \<longrightarrow> Match webmOrMKVSig data = Inr ('''', ''''))
   \<and> (begins_with EBML data \<longrightarrow>
        Match webmOrMKVSig data =
          Inr (if occurs_in (bytes_of ''webm'') (drop 4 data) then (''video/webm'', ''webm'')
               else if occurs_in (bytes_of ''matroska'') (drop 4 data)
               then (''video/x-matroska'', ''mkv'')
               else ('''', '''')))"
proof (intro conjI impI)
  assume "length data < 8 \<or> \<not> begins_with EBML data"
  then show "Match webmOrMKVSig data = Inr ('''', '''')"
    by (auto simp: webmOrMKVSig_Match_def HasPrefix_iff)
next
  assume hdr: "begins_with EBML data"
  show "Match webmOrMKVSig data =
          Inr (if occurs_in (bytes_of ''webm'') (drop 4 data) then (''video/webm'', ''webm'')
               else if occurs_in (bytes_of ''matroska'') (drop 4 data)
               then (''video/x-matroska'', ''mkv'')
               else ('''', ''''))"
  proof (cases "length data < 8")
    case False
    with hdr show ?thesis
      by (simp add: webmOrMKVSig_Match_def HasPrefix_iff Contains_iff)
  next
    case True
    have short: "\<not> occurs_in sub (drop 4 data)" if "4 \<le> length sub" for sub
    proof
      assume "occurs_in sub (drop 4 data)"
      then obtain ps ss where "drop 4 data = ps @ sub @ ss" by (auto simp: occurs_in_def)
      then have "length (drop 4 data) = length ps + length sub + length ss" by simp
      with True that show False by simp
    qed
    have "\<not> occurs_in (bytes_of ''webm'') (drop 4 data)"
      by (rule short) (simp add: bytes_of_def)
    moreover have "\<not> occurs_in (bytes_of ''matroska'') (drop 4 data)"
      by (rule short) (simp add: bytes_of_def)
    ultimately show ?thesis using True by (simp add: webmOrMKVSig_Match_def)
  qed
qed

text \<open>
  Both words without the header: no match. The header with both words: WebM. The header
  with "matroska" alone: MKV. The header and too few bytes: no match.
\<close>

theorem webmOrMKVSig_requires_header_witness:
  "Match webmOrMKVSig (bytes_of ''xxxxwebmmatroska'') = Inr ('''', '''')
   \<and> Match webmOrMKVSig (EBML @ bytes_of ''matroska webm'') = Inr (''video/webm'', ''webm'')
   \<and> Match webmOrMKVSig (EBML @ bytes_of ''..matroska'') = Inr (''video/x-matroska'', ''mkv'')
   \<and> Match webmOrMKVSig (EBML @ bytes_of ''web'') = Inr ('''', '''')"
  using webmOrMKVSig_requires_header [of "bytes_of ''xxxxwebmmatroska''"]
    webmOrMKVSig_requires_header [of "EBML @ bytes_of ''matroska webm''"]
    webmOrMKVSig_requires_header [of "EBML @ bytes_of ''..matroska''"]
    webmOrMKVSig_requires_header [of "EBML @ bytes_of ''web''"]
  by (simp add: HasPrefix_iff [symmetric] Contains_iff [symmetric] HasPrefix_def bytes_of_def
      EBML_def)

section \<open>Masked matchers\<close>

text \<open>
  C8: For every masked matcher and every prefix at least as long as its mask, changing the
  prefix at a position where the mask byte is zero never changes the outcome of the match;
  and for every prefix shorter than the mask the masked matcher returns no match.
\<close>

theorem maskedSig_ignores_zero_mask:
  "(length msk \<le> length data \<and> i < length msk \<and> msk ! i = 0 \<longrightarrow>
      Match (maskedSig ext mime msk pat) (data[i := v]) = Match (maskedSig ext mime msk pat) data)
   \<and> (length data < length msk \<longrightarrow> Match (maskedSig ext mime msk pat) data = Inr ('''', ''''))"
  by (simp add: maskedSig_Match_def maskedSig_range_update)

text \<open>
  The WebP matcher of the registry, on a RIFF header: a byte of the size field changes
  nothing, and a prefix of 12 bytes is too short for the mask of 14.
\<close>

theorem maskedSig_ignores_zero_mask_witness:
  "Match (matchers ! 4) ((bytes_of ''RIFF'' @ [0x24, 0, 0, 0] @ bytes_of ''WEBPVP8 '')[5 := 0x99])
     = Match (matchers ! 4) (bytes_of ''RIFF'' @ [0x24, 0, 0, 0] @ bytes_of ''WEBPVP8 '')
   \<and> Match (matchers ! 4) (bytes_of ''RIFF'' @ [0x24, 0, 0, 0] @ bytes_of ''WEBPVP8 '')
     = Inr (''image/webp'', ''webp'')
   \<and> Match (matchers ! 4) (bytes_of ''RIFF'' @ [0x24, 0, 0, 0] @ bytes_of ''WEBP'')
     = Inr ('''', '''')"
  using maskedSig_ignores_zero_mask [of
      "[0xFF, 0xFF, 0xFF, 0xFF, 0x00, 0x00, 0x00, 0x00, 0xFF, 0xFF, 0xFF, 0xFF, 0xFF, 0xFF]"
      "bytes_of ''RIFF'' @ [0x24, 0, 0, 0] @ bytes_of ''WEBPVP8 ''" 5
      "''webp''" "''image/webp''"
      "bytes_of ''RIFF'' @ [0x00, 0x00, 0x00, 0x00] @ bytes_of ''WEBPVP''" "0x99"]
    maskedSig_ignores_zero_mask [of
      "[0xFF, 0xFF, 0xFF, 0xFF, 0x00, 0x00, 0x00, 0x00, 0xFF, 0xFF, 0xFF, 0xFF, 0xFF, 0xFF]"
      "bytes_of ''RIFF'' @ [0x24, 0, 0, 0] @ bytes_of ''WEBP''" 5
      "''webp''" "''image/webp''"
      "bytes_of ''RIFF'' @ [0x00, 0x00, 0x00, 0x00] @ bytes_of ''WEBPVP''" "0x99"]
  by (simp add: matchers_def bytes_of_def maskedSig_Match_def)

section \<open>Dispatch: override and default\<close>

text \<open>
  C9: For every source whose label has a registered override processor, dispatch invokes
  exactly that override and returns its result unmodified, also when the label belongs to
  the image, audio or video case; no category handler is invoked. The result and the world
  after dispatch are those of the override alone, whatever the category handlers are.
\<close>

theorem processFile_override:
  assumes "index_mimeProcessors mimeProcessors (Mime src) = Some override"
  shows "processFile mimeProcessors handlers zero src opts w = override src opts w"
  using assms by (simp add: processFile_def)

text \<open>An override for "image/png", a label of the image case: the override alone runs.\<close>

theorem processFile_override_witness:
  "''image/png'' \<in> set image_case
   \<and> processFile (RegisterProcessor Map.empty ''image/png'' (Some (named_processor ''override'' 7)))
       named_handlers 0 \<lparr>Mime = ''image/png''\<rparr> () []
     = ((\<lparr>Mime = ''image/png''\<rparr>, 7, None), [''override''])"
  using processFile_override [of
      "RegisterProcessor Map.empty ''image/png'' (Some (named_processor ''override'' 7))"
      "\<lparr>Mime = ''image/png''\<rparr>" "named_processor ''override'' 7" named_handlers 0 "()" "[]"]
  by (simp add: index_mimeProcessors_def RegisterProcessor_def named_processor_def
      image_case_def)

text \<open>
  C10: For every source whose label has no registered override and belongs to none of the
  three cases, dispatch returns the source unchanged, the zero thumbnail and the error
  UnsupportedMIMEError with that label. No processor runs: the world is unchanged.
\<close>

theorem processFile_default:
  assumes "index_mimeProcessors mimeProcessors (Mime src) = None"
    and "Mime src \<notin> set image_case" and "Mime src \<notin> set audio_case"
    and "Mime src \<notin> set video_case"
  shows "processFile mimeProcessors handlers zero src opts w =
           ((src, zero, Some (UnsupportedMIMEError (Mime src))), w)"
  using assms by (simp add: processFile_def)

theorem processFile_default_witness:
  "processFile (RegisterProcessor Map.empty ''image/png'' (Some (named_processor ''override'' 7)))
       named_handlers 0 \<lparr>Mime = ''text/plain''\<rparr> () []
     = ((\<lparr>Mime = ''text/plain''\<rparr>, 0, Some (UnsupportedMIMEError ''text/plain'')), [])"
  using processFile_default [of
      "RegisterProcessor Map.empty ''image/png'' (Some (named_processor ''override'' 7))"
      "\<lparr>Mime = ''text/plain''\<rparr>" named_handlers 0 "()" "[]"]
  by (simp add: index_mimeProcessors_def RegisterProcessor_def image_case_def audio_case_def
      video_case_def)

section \<open>The MP4 matcher\<close>

lemma or_push_bit_eq_add:
  fixes a :: nat
  assumes "a < 2 ^ n"
  shows "a OR push_bit n x = a + 2 ^ n * x"
proof -
  have a: "take_bit n a = a" using assms by (simp add: take_bit_nat_eq_self)
  have "take_bit n a AND push_bit n x = 0"
    by (rule bit_eqI) (auto simp: bit_simps)
  then have "a AND push_bit n x = 0" using a by simp
  then have "a + push_bit n x = a OR push_bit n x"
    by (rule disjunctive_add_eq_or)
  moreover have "push_bit n x = 2 ^ n * x"
    by (simp add: push_bit_eq_mult)
  ultimately show ?thesis by metis
qed

lemma unat_byte_lt: "unat (b :: byte) < 256"
  using unsigned_less [of b, where ?'a = nat] by simp

lemma unat_ucast_byte: "unat (ucast b :: 32 word) = unat b" for b :: byte
  using unat_byte_lt [of b] by (simp add: unsigned_ucast_eq take_bit_nat_eq_self)

lemma unat_push_bit_byte:
  "n \<le> 24 \<Longrightarrow> unat (push_bit n (ucast b :: 32 word)) = push_bit n (unat b)" for b :: byte
proof -
  assume n: "n \<le> 24"
  have "unat b * 2 ^ n < 2 ^ 8 * 2 ^ n"
    using unat_byte_lt [of b] by simp
  also have "\<dots> = (2::nat) ^ (8 + n)" by (simp add: power_add)
  also have "\<dots> \<le> 2 ^ 32" using n by (intro power_increasing) auto
  finally have "push_bit n (unat b) < 2 ^ 32" by (simp add: push_bit_eq_mult)
  then have "take_bit 32 (push_bit n (unat b)) = push_bit n (unat b)"
    by (rule take_bit_nat_eq_self)
  moreover have "unat (push_bit n (ucast b :: 32 word)) = take_bit 32 (push_bit n (unat b))"
    by (simp add: unsigned_push_bit_eq unat_ucast_byte)
  ultimately show ?thesis by simp
qed

lemma BigEndian_Uint32_value:
  "unat (BigEndian_Uint32 [b0, b1, b2, b3]) =
     unat b0 * 2 ^ 24 + unat b1 * 2 ^ 16 + unat b2 * 2 ^ 8 + unat b3"
proof -
  have lt: "unat b0 < 2 ^ 8" "unat b1 < 2 ^ 8" "unat b2 < 2 ^ 8" "unat b3 < 2 ^ 8"
    using unat_byte_lt by simp_all
  have "BigEndian_Uint32 [b0, b1, b2, b3] =
     ucast b3 OR push_bit 8 (ucast b2) OR push_bit 16 (ucast b1) OR push_bit 24 (ucast b0)"
    unfolding BigEndian_Uint32_def by (simp only: nth_Cons_0 nth_Cons_numeral) simp
  then have "unat (BigEndian_Uint32 [b0, b1, b2, b3]) =
          unat b3 OR push_bit 8 (unat b2) OR push_bit 16 (unat b1) OR push_bit 24 (unat b0)"
    by (simp only: unsigned_or_eq unat_ucast_byte unat_push_bit_byte)
  also have "\<dots> = unat b3 OR push_bit 8 (unat b2 OR push_bit 8 (unat b1 OR push_bit 8 (unat b0)))"
    by (simp only: push_bit_or push_bit_push_bit) simp
  also have "\<dots> = unat b3 + 2 ^ 8 * (unat b2 + 2 ^ 8 * (unat b1 + 2 ^ 8 * unat b0))"
    by (simp only: or_push_bit_eq_add [OF lt(4)] or_push_bit_eq_add [OF lt(3)]
        or_push_bit_eq_add [OF lt(2)])
  finally show ?thesis by simp
qed

lemma take_4_nth:
  assumes "4 \<le> length data"
  shows "take 4 data = [data ! 0, data ! 1, data ! 2, data ! 3]"
proof -
  from assms obtain a b c d rest where "data = a # b # c # d # rest"
    by (auto simp: numeral_eq_Suc Suc_le_length_iff)
  then show ?thesis by simp
qed

lemma boxSize_eq: "4 \<le> length data \<Longrightarrow> unat (BigEndian_Uint32 (take 4 data)) = box_size data"
  by (simp only: take_4_nth BigEndian_Uint32_value box_size_def)

lemma mp4_offsets_iff:
  "st \<in> set (mp4_offsets boxSize) \<longleftrightarrow> 8 \<le> st \<and> st < boxSize \<and> 4 dvd st \<and> st \<noteq> 12"
  by (auto simp: mp4_offsets_def)


lemma slice_in_range:
  "lo \<le> hi \<Longrightarrow> hi \<le> length data \<Longrightarrow> slice data lo hi = Inr (take (hi - lo) (drop lo data))"
  by (simp add: slice_def)

lemma aligned_next:
  fixes st s :: nat
  assumes "4 dvd st" "4 dvd s" "st \<le> s" "s \<noteq> st"
  shows "st + 4 \<le> s"
proof -
  from assms obtain a b where "st = 4 * a" "s = 4 * b" by (auto simp: dvd_def)
  with assms show ?thesis by auto
qed

lemma mp4Sig_range_spec:
  "4 dvd boxSize \<Longrightarrow> 4 dvd st \<Longrightarrow> boxSize \<le> length data \<Longrightarrow>
   mp4Sig_range data boxSize st =
     Inr (if \<exists>s. st \<le> s \<and> s < boxSize \<and> 4 dvd s \<and> s \<noteq> 12
               \<and> take 3 (drop s data) = bytes_of ''mp4''
          then (''video/mp4'', ''mp4'') else ('''', ''''))"
proof (induction data boxSize st rule: mp4Sig_range.induct)
  case (1 data boxSize st)
  let ?P = "\<lambda>s. s < boxSize \<and> 4 dvd s \<and> s \<noteq> 12 \<and> take 3 (drop s data) = bytes_of ''mp4''"
  show ?case
  proof (cases "st < boxSize")
    case False
    then have "\<not> (\<exists>s. st \<le> s \<and> ?P s)" by auto
    with False show ?thesis by (subst mp4Sig_range.simps) simp
  next
    case True
    have next_dvd: "4 dvd st + 4" using "1.prems" by simp
    have "st + 4 \<le> boxSize"
      using aligned_next [of st boxSize] True "1.prems" by auto
    then have sl: "slice data st (st + 3) = Inr (take 3 (drop st data))"
      using "1.prems" by (simp add: slice_in_range)
    have split: "(\<exists>s. st \<le> s \<and> ?P s) \<longleftrightarrow> ?P st \<or> (\<exists>s. st + 4 \<le> s \<and> ?P s)"
    proof
      assume "\<exists>s. st \<le> s \<and> ?P s"
      then obtain s where s: "st \<le> s" "?P s" by blast
      show "?P st \<or> (\<exists>s. st + 4 \<le> s \<and> ?P s)"
      proof (cases "s = st")
        case True
        with s show ?thesis by blast
      next
        case False
        then have "st + 4 \<le> s" using aligned_next [of st s] s "1.prems" by auto
        with s show ?thesis by blast
      qed
    next
      assume "?P st \<or> (\<exists>s. st + 4 \<le> s \<and> ?P s)"
      then show "\<exists>s. st \<le> s \<and> ?P s"
        by (metis add_leD1 order_refl)
    qed
    show ?thesis
    proof (cases "st = 12")
      case st12: True
      have "mp4Sig_range data boxSize st = mp4Sig_range data boxSize (st + 4)"
        using True st12 by (subst mp4Sig_range.simps) simp
      also have "\<dots> = Inr (if \<exists>s. st + 4 \<le> s \<and> ?P s
                          then (''video/mp4'', ''mp4'') else ('''', ''''))"
        using "1.IH"(1) [OF True st12] "1.prems" next_dvd by simp
      finally show ?thesis using split st12 by simp
    next
      case st12: False
      show ?thesis
      proof (cases "take 3 (drop st data) = bytes_of ''mp4''")
        case hit: True
        have "mp4Sig_range data boxSize st = Inr (''video/mp4'', ''mp4'')"
          using True st12 sl hit by (subst mp4Sig_range.simps) simp
        moreover have "\<exists>s. st \<le> s \<and> ?P s"
          using True st12 hit "1.prems" by blast
        ultimately show ?thesis by simp
      next
        case miss: False
        have "mp4Sig_range data boxSize st = mp4Sig_range data boxSize (st + 4)"
          using True st12 sl miss by (subst mp4Sig_range.simps) simp
        also have "\<dots> = Inr (if \<exists>s. st + 4 \<le> s \<and> ?P s
                            then (''video/mp4'', ''mp4'') else ('''', ''''))"
          using "1.IH"(2) [OF True st12 sl miss] "1.prems" next_dvd by simp
        finally show ?thesis using split miss by simp
      qed
    qed
  qed
qed

text \<open>
  C6: The MP4 matcher returns no match for every prefix shorter than 12 bytes, every prefix
  whose 4-byte big-endian box size is not a multiple of 4 or exceeds the length of the
  prefix, and every prefix whose bytes 4 to 7 are not "ftyp". Otherwise it walks the
  offsets that are multiples of 4 from 8 up to the box size (exclusive), skips offset 12,
  and returns "video/mp4" if and only if the three bytes at some visited offset are "mp4".
  The matcher never panics: every slice it takes is in range.
\<close>

theorem mp4Sig_Match_spec:
  "Match mp4Sig data =
     Inr (if length data < 12 \<or> \<not> 4 dvd box_size data \<or> length data < box_size data
             \<or> take 4 (drop 4 data) \<noteq> bytes_of ''ftyp''
          then ('''', '''')
          else if \<exists>st \<in> set (mp4_offsets (box_size data)).
                    take 3 (drop st data) = bytes_of ''mp4''
          then (''video/mp4'', ''mp4'')
          else ('''', ''''))"
proof (cases "length data < 12")
  case True
  then show ?thesis by (simp add: mp4Sig_Match_def)
next
  case long: False
  then have bs: "unat (BigEndian_Uint32 (take 4 data)) = box_size data"
    by (simp add: boxSize_eq)
  show ?thesis
  proof (cases "\<not> 4 dvd box_size data \<or> length data < box_size data
             \<or> take 4 (drop 4 data) \<noteq> bytes_of ''ftyp''")
    case True
    with long bs show ?thesis by (auto simp: mp4Sig_Match_def Let_def dvd_eq_mod_eq_0)
  next
    case False
    then have ok: "4 dvd box_size data" "box_size data \<le> length data"
      "take 4 (drop 4 data) = bytes_of ''ftyp''" by auto
    have "Match mp4Sig data = mp4Sig_range data (box_size data) 8"
      using long bs ok by (simp add: mp4Sig_Match_def Let_def dvd_eq_mod_eq_0)
    also have "\<dots> = Inr (if \<exists>s. 8 \<le> s \<and> s < box_size data \<and> 4 dvd s \<and> s \<noteq> 12
               \<and> take 3 (drop s data) = bytes_of ''mp4''
          then (''video/mp4'', ''mp4'') else ('''', ''''))"
      using ok by (intro mp4Sig_range_spec) auto
    also have "(\<exists>s. 8 \<le> s \<and> s < box_size data \<and> 4 dvd s \<and> s \<noteq> 12
               \<and> take 3 (drop s data) = bytes_of ''mp4'') \<longleftrightarrow>
       (\<exists>st \<in> set (mp4_offsets (box_size data)). take 3 (drop st data) = bytes_of ''mp4'')"
      by (auto simp: mp4_offsets_iff)
    finally show ?thesis using long ok by simp
  qed
qed

text \<open>
  A box of 24 bytes with the brand "mp42" at offset 16: MP4. The same cut to 20 bytes: the
  box exceeds the prefix. A box of 16 bytes with "mp42" at offset 12 only: skipped. A box
  size of 18 with "mp42" at offset 8: not a multiple of 4.
\<close>

theorem mp4Sig_Match_spec_witness:
  "Match mp4Sig mp42 = Inr (''video/mp4'', ''mp4'')
   \<and> Match mp4Sig (take 20 mp42) = Inr ('''', '''')
   \<and> Match mp4Sig ([0x00, 0x00, 0x00, 0x10] @ bytes_of ''ftypisom'' @ bytes_of ''mp42'')
        = Inr ('''', '''')
   \<and> Match mp4Sig ([0x00, 0x00, 0x00, 0x12] @ bytes_of ''ftypmp42'' @ [0, 0, 0, 0, 0, 0])
        = Inr ('''', '''')"
  using mp4Sig_Match_spec [of mp42] mp4Sig_Match_spec [of "take 20 mp42"]
    mp4Sig_Match_spec [of "[0x00, 0x00, 0x00, 0x10] @ bytes_of ''ftypisom'' @ bytes_of ''mp42''"]
    mp4Sig_Match_spec [of "[0x00, 0x00, 0x00, 0x12] @ bytes_of ''ftypmp42'' @ [0, 0, 0, 0, 0, 0]"]
  by (simp add: mp42_def box_size_def mp4_offsets_def bytes_of_def upt_conv_Cons)

section \<open>Detection: prefix, loop and verdict\<close>

lemma excluded_iff:
  "excluded accepted mime \<longleftrightarrow> accepted \<noteq> None \<and> \<not> index_accepted (the accepted) mime"
  by (cases accepted; cases "the accepted mime") (auto simp: excluded_def index_accepted_def)




lemma range_matchers_first:
  "\<forall>m' \<in> set pre. \<exists>e. Match m' buf = Inr ('''', e) \<Longrightarrow>
   Match m buf = Inr (mime, ext) \<Longrightarrow> mime \<noteq> '''' \<Longrightarrow>
   range_matchers (pre @ m # post) buf res = Inr (mime, ext)"
  by (induction pre arbitrary: res) auto



lemma detectMimeType_buf_length:
  "detectMimeType_buf Read buf rs = (Inr prefix, rs') \<Longrightarrow> length prefix \<le> 512"
  by (auto simp: detectMimeType_buf_def store_def make_bytes_def Let_def split: option.splits prod.splits if_splits)

lemma detectMimeType_first:
  assumes "detectMimeType_buf Read buf rs = (Inr prefix, rs')"
    and "\<forall>m' \<in> set pre. \<exists>e. Match m' prefix = Inr ('''', e)"
    and "Match m prefix = Inr (mime, ext)" and "mime \<noteq> ''''"
  shows "detectMimeType (pre @ m # post) Read buf rs accepted =
           Inr ((mime, ext,
                 if excluded accepted mime then Some (UnsupportedMIMEError mime) else None), rs')"
  using assms range_matchers_first [OF assms(2-4), of post "('''', '''')"]
  by (simp add: detectMimeType_def detectMimeType_match_def excluded_iff)


lemma detectMimeType_buf_Some:
  "detectMimeType_buf Read (Some b) rs = (Inr (take 512 b), rs)"
  by (simp add: detectMimeType_buf_def)

lemma detectMimeType_buf_None_state:
  "snd (detectMimeType_buf Read None rs) = snd (Read rs (make_bytes 512))"
  by (simp add: detectMimeType_buf_def Let_def split: prod.splits option.splits)

lemma detectMimeType_state:
  "detectMimeType ms Read buf rs accepted = Inr (res, rs1) \<Longrightarrow>
   rs1 = snd (detectMimeType_buf Read buf rs)"
  by (auto simp: detectMimeType_def split: prod.splits sum.splits)

lemma short_shapes:
  assumes "length (xs :: 'a list) < 4"
  obtains "xs = []" | a where "xs = [a]" | a b where "xs = [a, b]"
    | a b c where "xs = [a, b, c]"
proof -
  from assms have "length xs = 0 \<or> length xs = 1 \<or> length xs = 2 \<or> length xs = 3"
    by arith
  then show ?thesis
    using that by (auto simp: length_Suc_conv numeral_eq_Suc)
qed

lemma exactSig_Match_short:
  "length data < length sig \<Longrightarrow> exactSig_Match ext mime sig data = ('''', '''')"
  by (simp add: exactSig_Match_def HasPrefix_def)

lemma exactSig_Match_no_prefix:
  "\<not> begins_with sig data \<Longrightarrow> exactSig_Match ext mime sig data = ('''', '''')"
  by (simp add: exactSig_Match_def HasPrefix_iff)

lemma maskedSig_Match_short:
  "length data < length msk \<Longrightarrow> maskedSig_Match ext mime msk pat data = Inr ('''', '''')"
  by (simp add: maskedSig_Match_def)

lemma length_bytes_of: "length (bytes_of s) = length s"
  by (simp add: bytes_of_def)

lemma and_255: "(b :: byte) AND 255 = b"
proof -
  have "(255 :: byte) = mask 8" by (simp add: mask_eq_exp_minus_1)
  then have "b AND 255 = take_bit 8 b" by (simp add: take_bit_eq_mask)
  also have "\<dots> = b" using take_bit_length_eq [of b] by simp
  finally show ?thesis .
qed

lemma mp3_no_prefix:
  assumes "length data < 4" and "\<not> begins_with (bytes_of ''ID3'') data"
  shows "maskedSig_Match ext mime [0xFF, 0xFF, 0xFF] (bytes_of ''ID3'') data = Inr ('''', '''')"
  using assms(1)
proof (cases data rule: short_shapes)
  case (4 a b c)
  with assms(2) show ?thesis
    by (auto simp: maskedSig_Match_def bytes_of_def begins_with_def and_255)
qed (simp_all add: maskedSig_Match_def)

lemma short_unmatched:
  assumes "length prefix < 4"
    and "\<not> begins_with [0xFF, 0xD8, 0xFF] prefix"
    and "\<not> begins_with (bytes_of ''ID3'') prefix"
    and "\<not> begins_with (bytes_of ''BM'') prefix"
  shows "\<forall>m \<in> set matchers. Match m prefix = Inr ('''', '''')"
  using assms
  by (simp add: matchers_def exactSig_Match_no_prefix mp3_no_prefix
      exactSig_Match_short maskedSig_Match_short webmOrMKVSig_Match_def mp4Sig_Match_def
      length_bytes_of)

section \<open>First match wins\<close>

text \<open>
  C3: For every byte prefix that satisfies the patterns of two distinct matchers of the
  registry, detection returns the label and the extension of the matcher registered
  earlier; evaluation stops at the first matcher that returns a label that is not empty.
  Here \<open>m\<close> is the first matcher of the registry \<open>pre @ m # post\<close> that matches the
  prefix; the matchers after it, \<open>post\<close>, are arbitrary: whether one of them matches too (or
  would panic) changes nothing, since the loop never reaches them.
\<close>

theorem first_match_wins:
  assumes "detectMimeType_buf Read buf rs = (Inr prefix, rs')"
    and "\<forall>m' \<in> set pre. \<exists>e. Match m' prefix = Inr ('''', e)"
    and "Match m prefix = Inr (mime, ext)" and "mime \<noteq> ''''"
  shows "range_matchers (pre @ m # post) prefix ('''', '''') = Inr (mime, ext)
         \<and> detectMimeType (pre @ m # post) Read buf rs accepted =
             Inr ((mime, ext,
                   if excluded accepted mime then Some (UnsupportedMIMEError mime) else None),
                  rs')"
  using range_matchers_first [OF assms(2-4)] detectMimeType_first [OF assms] by simp

text \<open>
  A prefix that both the MP4 matcher (index 9) and the QuickTime signature (index 19) of
  the built-in registry match: detection returns "video/mp4".
\<close>

theorem first_match_wins_witness:
  "matchers = take 9 matchers @ mp4Sig # drop 10 matchers
   \<and> matchers ! 19 \<in> set (drop 10 matchers)
   \<and> Match (matchers ! 19) mp4_mov = Inr (''video/quicktime'', ''mov'')
   \<and> Match mp4Sig mp4_mov = Inr (''video/mp4'', ''mp4'')
   \<and> detectMimeType matchers bytesReader_Read (Some mp4_mov) [] None =
        Inr ((''video/mp4'', ''mp4'', None), [])"
proof -
  have split: "matchers = take 9 matchers @ mp4Sig # drop 10 matchers"
    by (simp add: matchers_def)
  have buf: "detectMimeType_buf bytesReader_Read (Some mp4_mov) [] = (Inr mp4_mov, [])"
    by (simp add: detectMimeType_buf_def mp4_mov_def bytes_of_def)
  have pre: "\<forall>m' \<in> set (take 9 matchers). \<exists>e. Match m' mp4_mov = Inr ('''', e)"
    by (simp add: matchers_def mp4_mov_def Match_defs)
  have m: "Match mp4Sig mp4_mov = Inr (''video/mp4'', ''mp4'')"
    by (simp add: mp4_mov_def Match_defs BigEndian_Uint32_def slice_def)
  have mov: "Match (matchers ! 19) mp4_mov = Inr (''video/quicktime'', ''mov'')"
    by (simp add: matchers_def mp4_mov_def Match_defs)
  have later: "matchers ! 19 \<in> set (drop 10 matchers)"
    by (simp add: matchers_def)
  from first_match_wins [OF buf pre m, of "drop 10 matchers" None] split
  have "detectMimeType matchers bytesReader_Read (Some mp4_mov) [] None =
        Inr ((''video/mp4'', ''mp4'', None), [])"
    by (simp add: excluded_def)
  with split later mov m show ?thesis by blast
qed

section \<open>The outcomes of detection\<close>




section \<open>The errors returned\<close>

text \<open>
  C2 (amended): Every failure that detection and dispatch raise themselves is the single
  error kind UnsupportedMIMEError(label), whose message is "unsupported MIME type: "
  followed by the label: the sentinel or the matched label for detection, the label of the
  source for dispatch. The only other errors returned to the caller are passed through
  unchanged: the error of the stream's read (detection, nil buffer), and the error of the
  override or category handler that dispatch invoked.
\<close>

theorem errors_returned:
  "(detectMimeType ms Read buf rs accepted = Inr ((mime, ext, Some e), rs') \<longrightarrow>
      (\<exists>label. e = UnsupportedMIMEError label
          \<and> Error e = ''unsupported MIME type: '' @ label
          \<and> (label = ''application/octet-stream'' \<or> label = mime))
      \<or> (buf = None \<and> snd (snd (fst (Read rs (make_bytes 512)))) = Some e))
   \<and> (processFile mimeProcessors handlers zero src opts w = ((src', t, Some e), w') \<longrightarrow>
      (e = UnsupportedMIMEError (Mime src)
          \<and> Error e = ''unsupported MIME type: '' @ Mime src)
      \<or> (\<exists>fn. (index_mimeProcessors mimeProcessors (Mime src) = Some fn
                 \<or> fn = processImage handlers \<or> fn = processAudio handlers
                 \<or> fn = processVideo handlers)
              \<and> fn src opts w = ((src', t, Some e), w')))"
proof (intro conjI impI)
  assume d: "detectMimeType ms Read buf rs accepted = Inr ((mime, ext, Some e), rs')"
  show "(\<exists>label. e = UnsupportedMIMEError label
          \<and> Error e = ''unsupported MIME type: '' @ label
          \<and> (label = ''application/octet-stream'' \<or> label = mime))
      \<or> (buf = None \<and> snd (snd (fst (Read rs (make_bytes 512)))) = Some e)"
  proof (cases "detectMimeType_buf Read buf rs")
    case (Pair r s)
    show ?thesis
    proof (cases r)
      case (Inl e')
      with Pair d have "e' = e" by (simp add: detectMimeType_def)
      with Pair Inl have "buf = None \<and> snd (snd (fst (Read rs (make_bytes 512)))) = Some e"
        by (auto simp: detectMimeType_buf_def Let_def split: option.splits prod.splits)
      then show ?thesis by blast
    next
      case (Inr prefix)
      with Pair d have "detectMimeType_match ms prefix accepted = Inr (mime, ext, Some e)"
        by (auto simp: detectMimeType_def split: sum.splits)
      then have "e = UnsupportedMIMEError ''application/octet-stream'' \<or> e = UnsupportedMIMEError mime"
        by (auto simp: detectMimeType_match_def split: sum.splits if_splits)
      then show ?thesis by auto
    qed
  qed
next
  assume p: "processFile mimeProcessors handlers zero src opts w = ((src', t, Some e), w')"
  show "(e = UnsupportedMIMEError (Mime src)
          \<and> Error e = ''unsupported MIME type: '' @ Mime src)
      \<or> (\<exists>fn. (index_mimeProcessors mimeProcessors (Mime src) = Some fn
                 \<or> fn = processImage handlers \<or> fn = processAudio handlers
                 \<or> fn = processVideo handlers)
              \<and> fn src opts w = ((src', t, Some e), w'))"
  proof (cases "index_mimeProcessors mimeProcessors (Mime src)")
    case (Some override)
    with p have "override src opts w = ((src', t, Some e), w')"
      by (simp add: processFile_def)
    with Some show ?thesis by blast
  next
    case None
    consider (image) "Mime src \<in> set image_case"
      | (audio) "Mime src \<notin> set image_case" "Mime src \<in> set audio_case"
      | (video) "Mime src \<notin> set image_case" "Mime src \<notin> set audio_case"
          "Mime src \<in> set video_case"
      | (other) "Mime src \<notin> set image_case" "Mime src \<notin> set audio_case"
          "Mime src \<notin> set video_case"
      by blast
    then show ?thesis
    proof cases
      case image
      with None p have "processImage handlers src opts w = ((src', t, Some e), w')"
        by (simp add: processFile_def)
      then show ?thesis by blast
    next
      case audio
      with None p have "processAudio handlers src opts w = ((src', t, Some e), w')"
        by (simp add: processFile_def)
      then show ?thesis by blast
    next
      case video
      with None p have "processVideo handlers src opts w = ((src', t, Some e), w')"
        by (simp add: processFile_def)
      then show ?thesis by blast
    next
      case other
      with None p have "e = UnsupportedMIMEError (Mime src)"
        by (auto simp: processFile_def)
      then show ?thesis by simp
    qed
  qed
qed

text \<open>Ten bytes that match nothing, and a label that no processor handles.\<close>

theorem errors_returned_witness:
  "detectMimeType matchers bytesReader_Read (Some (bytes_of ''0123456789'')) [] None =
     Inr (('''', '''', Some (UnsupportedMIMEError ''application/octet-stream'')), [])
   \<and> Error (UnsupportedMIMEError ''application/octet-stream'') =
       ''unsupported MIME type: application/octet-stream''
   \<and> processFile Map.empty named_handlers 0 \<lparr>Mime = ''text/plain''\<rparr> () [] =
       ((\<lparr>Mime = ''text/plain''\<rparr>, 0, Some (UnsupportedMIMEError ''text/plain'')), [])
   \<and> Error (UnsupportedMIMEError ''text/plain'') = ''unsupported MIME type: text/plain''"
proof -
  have d: "detectMimeType matchers bytesReader_Read (Some (bytes_of ''0123456789'')) [] None =
     Inr (('''', '''', Some (UnsupportedMIMEError ''application/octet-stream'')), [])"
    by (simp add: detect_defs matchers_def Match_defs)
  have p: "processFile Map.empty named_handlers 0 \<lparr>Mime = ''text/plain''\<rparr> () [] =
       ((\<lparr>Mime = ''text/plain''\<rparr>, 0, Some (UnsupportedMIMEError ''text/plain'')), [])"
    by (simp add: processFile_def index_mimeProcessors_def image_case_def audio_case_def
        video_case_def)
  have nofn: "index_mimeProcessors Map.empty ''text/plain''
      = (None :: (unit, unit, nat, string list) Processor option)"
    by (simp add: index_mimeProcessors_def)
  from errors_returned [THEN conjunct1, rule_format, OF d]
  have "Error (UnsupportedMIMEError ''application/octet-stream'') =
       ''unsupported MIME type: application/octet-stream''"
    by auto
  moreover
  from errors_returned [THEN conjunct2, rule_format, OF p]
  have "Error (UnsupportedMIMEError ''text/plain'') = ''unsupported MIME type: text/plain''"
    by (auto simp: nofn named_handlers_def named_processor_def)
  ultimately show ?thesis using d p by blast
qed

text \<open>
  The claim as stated fails: detection on an empty stream returns the reader's
  \<^verbatim>\<open>io.EOF\<close>, and dispatch returns the error of the override it invoked; neither is an
  UnsupportedMIMEError.
\<close>

theorem errors_returned_counterexample:
  "detectMimeType matchers bytesReader_Read None [] None =
     Inr (('''', '''', Some (OtherError ''EOF'')), [])
   \<and> processFile (RegisterProcessor Map.empty ''image/png'' (Some failing_processor))
       named_handlers 0 \<lparr>Mime = ''image/png''\<rparr> () [] =
       ((\<lparr>Mime = ''image/png''\<rparr>, 0, Some (OtherError ''decoder failed'')), [])
   \<and> Error (OtherError ''EOF'') = ''EOF''"
  by (simp add: detect_defs bytesReader_Read_def processFile_def index_mimeProcessors_def
      RegisterProcessor_def failing_processor_def)

section \<open>The 512-byte prefix\<close>

text \<open>
  C4: Detection inspects at most the first 512 bytes of its input. A supplied buffer is cut
  to its first 512 bytes before matching, so two buffers that agree on these give the same
  result, and no read is performed (the reader's state is unchanged). For a stream, exactly
  one read into a buffer of 512 bytes is performed: the state of the reader after detection
  is its state after that one call, and detection depends on the reader through that call
  alone. In both cases the prefix handed to the matchers has at most 512 bytes.
\<close>

theorem detection_inspects_at_most_512:
  "detectMimeType ms Read (Some b) rs accepted =
     detectMimeType ms Read (Some (take 512 b)) rs accepted
   \<and> (take 512 b = take 512 b' \<longrightarrow>
        detectMimeType ms Read (Some b) rs accepted = detectMimeType ms Read (Some b') rs accepted)
   \<and> (detectMimeType_buf Read buf rs = (Inr prefix, rs') \<longrightarrow> length prefix \<le> 512)
   \<and> (detectMimeType ms Read (Some b) rs accepted = Inr (res, rs1) \<longrightarrow> rs1 = rs)
   \<and> length (make_bytes 512) = 512
   \<and> (detectMimeType ms Read None rs accepted = Inr (res, rs1) \<longrightarrow>
        rs1 = snd (Read rs (make_bytes 512)))
   \<and> (Read rs (make_bytes 512) = Read2 rs2 (make_bytes 512) \<longrightarrow>
        detectMimeType ms Read None rs accepted = detectMimeType ms Read2 None rs2 accepted)"
proof (intro conjI impI)
  show "detectMimeType ms Read (Some b) rs accepted =
      detectMimeType ms Read (Some (take 512 b)) rs accepted"
    by (simp add: detectMimeType_def detectMimeType_buf_Some)
next
  assume "take 512 b = take 512 b'"
  then show "detectMimeType ms Read (Some b) rs accepted =
      detectMimeType ms Read (Some b') rs accepted"
    by (simp add: detectMimeType_def detectMimeType_buf_Some)
next
  assume "detectMimeType_buf Read buf rs = (Inr prefix, rs')"
  then show "length prefix \<le> 512" by (rule detectMimeType_buf_length)
next
  assume "detectMimeType ms Read (Some b) rs accepted = Inr (res, rs1)"
  from detectMimeType_state [OF this] show "rs1 = rs"
    by (simp add: detectMimeType_buf_Some)
next
  show "length (make_bytes 512) = 512" by (simp add: make_bytes_def)
next
  assume "detectMimeType ms Read None rs accepted = Inr (res, rs1)"
  from detectMimeType_state [OF this] show "rs1 = snd (Read rs (make_bytes 512))"
    by (simp add: detectMimeType_buf_None_state)
next
  assume "Read rs (make_bytes 512) = Read2 rs2 (make_bytes 512)"
  then have "detectMimeType_buf Read None rs = detectMimeType_buf Read2 None rs2"
    by (simp add: detectMimeType_buf_def)
  then show "detectMimeType ms Read None rs accepted = detectMimeType ms Read2 None rs2 accepted"
    by (simp add: detectMimeType_def)
qed

text \<open>
  Two buffers of more than 512 bytes that differ from byte 512 on; a reader that counts
  its calls: none for a buffer, one for a stream; and two readers whose first call gives the
  same 512 bytes.
\<close>

theorem detection_inspects_at_most_512_witness:
  "take 512 long_jpeg = take 512 long_jpeg'
   \<and> detectMimeType matchers bytesReader_Read (Some long_jpeg) [] None =
       detectMimeType matchers bytesReader_Read (Some long_jpeg') [] None
   \<and> detectMimeType_buf bytesReader_Read (Some long_jpeg) [] =
       (Inr (jpeg @ replicate 502 0x20), [])
   \<and> length (jpeg @ replicate 502 0x20) \<le> 512
   \<and> detectMimeType matchers countingReader_Read (Some jpeg) (jpeg, 0) None =
       Inr ((''image/jpeg'', ''jpg'', None), (jpeg, 0))
   \<and> detectMimeType matchers countingReader_Read None (jpeg, 0) None =
       Inr ((''image/jpeg'', ''jpg'', None), ([], 1))
   \<and> snd (countingReader_Read (jpeg, 0) (make_bytes 512)) = ([], 1)
   \<and> bytesReader_Read long_jpeg (make_bytes 512) = eagerEOF_Read long_jpeg (make_bytes 512)
   \<and> detectMimeType matchers bytesReader_Read None long_jpeg None =
       detectMimeType matchers eagerEOF_Read None long_jpeg None"
proof -
  have t: "take 512 long_jpeg = take 512 long_jpeg'"
    by (simp add: long_jpeg_def long_jpeg'_def jpeg_def bytes_of_def)
  have b: "detectMimeType_buf bytesReader_Read (Some long_jpeg) [] =
       (Inr (jpeg @ replicate 502 0x20), [])"
    by (simp add: detectMimeType_buf_def long_jpeg_def jpeg_def bytes_of_def)
  have m: "detectMimeType matchers countingReader_Read (Some jpeg) (jpeg, 0) None =
       Inr ((''image/jpeg'', ''jpg'', None), (jpeg, 0))"
    by (simp add: detect_defs jpeg_def matchers_def Match_defs)
  have s: "detectMimeType matchers countingReader_Read None (jpeg, 0) None =
       Inr ((''image/jpeg'', ''jpg'', None), ([], 1))"
    by (simp add: detect_defs countingReader_Read_def bytesReader_Read_def jpeg_def matchers_def
        Match_defs)
  have r: "bytesReader_Read long_jpeg (make_bytes 512) = eagerEOF_Read long_jpeg (make_bytes 512)"
    by (simp add: bytesReader_Read_def eagerEOF_Read_def make_bytes_def long_jpeg_def jpeg_def
        bytes_of_def)
  note buffers = detection_inspects_at_most_512 [where ms = matchers
      and Read = bytesReader_Read and b = long_jpeg and b' = long_jpeg' and rs = "[]"
      and accepted = None and buf = "Some long_jpeg" and prefix = "jpeg @ replicate 502 0x20"
      and rs' = "[]"]
  note counted = detection_inspects_at_most_512 [where ms = matchers
      and Read = countingReader_Read and rs = "(jpeg, 0)" and accepted = None
      and res = "(''image/jpeg'', ''jpg'', None)"]
  note readers = detection_inspects_at_most_512 [where ms = matchers
      and Read = bytesReader_Read and rs = long_jpeg and ?Read2.0 = eagerEOF_Read
      and ?rs2.0 = long_jpeg and accepted = None]
  from buffers t have "detectMimeType matchers bytesReader_Read (Some long_jpeg) [] None =
       detectMimeType matchers bytesReader_Read (Some long_jpeg') [] None"
    by blast
  moreover from buffers b have "length (jpeg @ replicate 502 0x20) \<le> 512"
    by blast
  moreover from counted [where b = jpeg and ?rs1.0 = "(jpeg, 0)"] m
  have "(jpeg, 0 :: nat) = (jpeg, 0)"
    by blast
  moreover from counted [where ?rs1.0 = "([], 1)"] s
  have "snd (countingReader_Read (jpeg, 0) (make_bytes 512)) = ([], 1)"
    by simp
  moreover from readers r
  have "detectMimeType matchers bytesReader_Read None long_jpeg None =
       detectMimeType matchers eagerEOF_Read None long_jpeg None"
    by blast
  ultimately show ?thesis using t b m s r by blast
qed

section \<open>Short inputs\<close>

text \<open>
  C1 (amended): For every input prefix shorter than 4 bytes that does not begin with
  FF D8 FF, "ID3" or "BM" (so for every prefix shorter than 2 bytes), every matcher of the
  built-in registry returns an empty label, and detection on it (a supplied buffer, or a
  stream whose read returned it without error) fails with UnsupportedMIMEError carrying the
  sentinel "application/octet-stream".
\<close>

theorem short_input_unsupported:
  assumes "detectMimeType_buf Read buf rs = (Inr prefix, rs')"
    and "length prefix < 4"
    and "\<not> begins_with [0xFF, 0xD8, 0xFF] prefix"
    and "\<not> begins_with (bytes_of ''ID3'') prefix"
    and "\<not> begins_with (bytes_of ''BM'') prefix"
  shows "(\<forall>m \<in> set matchers. Match m prefix = Inr ('''', ''''))
         \<and> detectMimeType matchers Read buf rs accepted =
             Inr (('''', '''', Some (UnsupportedMIMEError ''application/octet-stream'')), rs')"
proof -
  have none: "\<forall>m \<in> set matchers. Match m prefix = Inr ('''', '''')"
    using assms(2-5) by (rule short_unmatched)
  have "range_matchers ms prefix ('''', '''') = Inr ('''', '''')"
    if "\<forall>m \<in> set ms. Match m prefix = Inr ('''', '''')" for ms
    using that by (induction ms) auto
  from this [OF none] assms(1) none show ?thesis
    by (simp add: detectMimeType_def detectMimeType_match_def)
qed

text \<open>The three bytes "GIF" as a buffer, and the single byte "B" read from a stream.\<close>

theorem short_input_unsupported_witness:
  "detectMimeType matchers bytesReader_Read (Some (bytes_of ''GIF'')) [] None =
     Inr (('''', '''', Some (UnsupportedMIMEError ''application/octet-stream'')), [])
   \<and> detectMimeType matchers bytesReader_Read None (bytes_of ''B'') None =
     Inr (('''', '''', Some (UnsupportedMIMEError ''application/octet-stream'')), [])"
proof -
  have b1: "detectMimeType_buf bytesReader_Read (Some (bytes_of ''GIF'')) [] =
      (Inr (bytes_of ''GIF''), [])"
    by (simp add: detectMimeType_buf_def bytes_of_def)
  have b2: "detectMimeType_buf bytesReader_Read None (bytes_of ''B'') = (Inr (bytes_of ''B''), [])"
    by (simp add: detectMimeType_buf_def bytesReader_Read_def make_bytes_def store_def
        bytes_of_def)
  have np: "\<not> begins_with sig data" if "\<not> HasPrefix data sig" for sig data
    using that by (simp add: HasPrefix_iff)
  have "detectMimeType matchers bytesReader_Read (Some (bytes_of ''GIF'')) [] None =
     Inr (('''', '''', Some (UnsupportedMIMEError ''application/octet-stream'')), [])"
    by (rule short_input_unsupported [OF b1, THEN conjunct2])
      (simp_all add: np HasPrefix_def bytes_of_def)
  moreover
  have "detectMimeType matchers bytesReader_Read None (bytes_of ''B'') None =
     Inr (('''', '''', Some (UnsupportedMIMEError ''application/octet-stream'')), [])"
    by (rule short_input_unsupported [OF b2, THEN conjunct2])
      (simp_all add: np HasPrefix_def bytes_of_def)
  ultimately show ?thesis by blast
qed

text \<open>
  The claim as stated fails: the signatures of JPEG (3 bytes) and BMP (2 bytes) are shorter
  than 4 bytes, and an input that is exactly such a signature is detected.
\<close>

theorem short_input_unsupported_counterexample:
  "length jpeg_sig < 4
   \<and> Match (matchers ! 0) jpeg_sig = Inr (''image/jpeg'', ''jpg'')
   \<and> detectMimeType matchers bytesReader_Read (Some jpeg_sig) [] None =
       Inr ((''image/jpeg'', ''jpg'', None), [])
   \<and> length (bytes_of ''BM'') < 4
   \<and> Match (matchers ! 12) (bytes_of ''BM'') = Inr (''image/bmp'', ''bmp'')
   \<and> detectMimeType matchers bytesReader_Read (Some (bytes_of ''BM'')) [] None =
       Inr ((''image/bmp'', ''bmp'', None), [])"
  by (simp add: detect_defs jpeg_sig_def matchers_def Match_defs)

end
